theory Spec2Isabelle
  imports
    Main
    "HOL-Library.Multiset"
    "HOL-Library.Char_ord"
    "HOL-Library.List_Lexorder"
    "HOL-Library.Product_Lexorder"
begin

section \<open>Paths\<close>

text \<open>
  The program handles files through \<^verbatim>\<open>pathlib.Path\<close>. A path is modelled by what
  pathlib keeps of it on a POSIX host: whether it is anchored at the root \<^verbatim>\<open>/\<close>, and the
  list of its component names. The exceptions that can leave the functions of the program
  are values of the type \<open>error\<close>: the \<^verbatim>\<open>ValueError\<close> of \<^verbatim>\<open>relative_to\<close>, and the
  \<^verbatim>\<open>NotADirectoryError\<close> of listing something that is not a directory.
\<close>

datatype error = ValueError | NotADirectoryError

datatype path = Path (is_absolute: bool) (names: "string list")

definition parts :: "path \<Rightarrow> string list" where
  "parts p = (if is_absolute p then [''/''] else []) @ names p"

definition name :: "path \<Rightarrow> string" where
  "name p = (if names p = [] then [] else last (names p))"

definition joinpath :: "path \<Rightarrow> string \<Rightarrow> path" where
  "joinpath p n = Path (is_absolute p) (names p @ [n])"


text \<open>
  \<^verbatim>\<open>p.relative_to(other)\<close> raises \<^verbatim>\<open>ValueError\<close> unless both paths have the same anchor
  and the components of \<^verbatim>\<open>other\<close> are the first components of \<^verbatim>\<open>p\<close>; the result is the
  relative path of the components that remain.
\<close>

definition relative_to :: "path \<Rightarrow> path \<Rightarrow> error + path" where
  "relative_to p other =
     (if is_absolute p = is_absolute other
         \<and> take (length (names other)) (names p) = names other
      then Inr (Path False (drop (length (names other)) (names p)))
      else Inl ValueError)"

fun join :: "string \<Rightarrow> string list \<Rightarrow> string" where
  "join sep [] = []"
| "join sep [x] = x"
| "join sep (x # y # ys) = x @ sep @ join sep (y # ys)"

text \<open>\<^verbatim>\<open>as_posix\<close> (and \<^verbatim>\<open>str\<close>, on a POSIX host): the empty relative path prints as a dot.\<close>

definition as_posix :: "path \<Rightarrow> string" where
  "as_posix p =
     (if is_absolute p then ''/'' @ join ''/'' (names p)
      else if names p = [] then ''.''
      else join ''/'' (names p))"

text \<open>
  \<^verbatim>\<open>suffix\<close> and \<^verbatim>\<open>stem\<close> look at the last dot of the name: it starts a suffix when it
  is neither the first nor the last character of the name.
\<close>

definition rfind_dot :: "string \<Rightarrow> nat option" where
  "rfind_dot s =
     (if CHR ''.'' \<in> set s
      then Some (length s - 1 - length (takeWhile (\<lambda>c. c \<noteq> CHR ''.'') (rev s)))
      else None)"

definition suffix :: "path \<Rightarrow> string" where
  "suffix p =
     (case rfind_dot (name p) of
        None \<Rightarrow> []
      | Some i \<Rightarrow> if 0 < i \<and> i < length (name p) - 1 then drop i (name p) else [])"

definition stem :: "path \<Rightarrow> string" where
  "stem p =
     (case rfind_dot (name p) of
        None \<Rightarrow> name p
      | Some i \<Rightarrow> if 0 < i \<and> i < length (name p) - 1 then take i (name p) else name p)"

section \<open>Shell patterns: \<^verbatim>\<open>fnmatch\<close>\<close>

text \<open>
  \<^verbatim>\<open>fnmatch.fnmatch\<close> belongs to Python's standard library. It is modelled as the library
  documents it and as \<^verbatim>\<open>fnmatch.translate\<close> computes it: a star matches any string
  (a slash too), a question mark any one character, \<^verbatim>\<open>[seq]\<close> one character of
  \<^verbatim>\<open>seq\<close>, \<^verbatim>\<open>[!seq]\<close> one character not in it; a bracket that is never closed stands
  for itself, a closing bracket right after the opening one (or after the \<^verbatim>\<open>!\<close>) is a
  member of the set, \<^verbatim>\<open>a-z\<close> inside a set is a range, and a range whose ends are in the
  wrong order holds no character. The pattern has to match the whole name. On a POSIX
  host the comparison is case-sensitive.
\<close>

datatype glob = Star | AnyChar | Lit char | CharSet bool "(char \<times> char) list"

fun parse_ranges :: "string \<Rightarrow> (char \<times> char) list" where
  "parse_ranges [] = []"
| "parse_ranges [a] = [(a, a)]"
| "parse_ranges [a, b] = [(a, a), (b, b)]"
| "parse_ranges (a # b # c # rest) =
     (if b = CHR ''-'' then (a, c) # parse_ranges rest
      else (a, a) # parse_ranges (b # c # rest))"

definition bracket_end :: "string \<Rightarrow> nat option" where
  "bracket_end cs =
     (let j0 = (if cs \<noteq> [] \<and> hd cs = CHR ''!'' then 1 else 0);
          j1 = (if j0 < length cs \<and> cs ! j0 = CHR '']'' then j0 + 1 else j0);
          j = j1 + length (takeWhile (\<lambda>c. c \<noteq> CHR '']'') (drop j1 cs))
      in if j < length cs then Some j else None)"

definition char_set :: "string \<Rightarrow> glob" where
  "char_set stuff =
     (if stuff \<noteq> [] \<and> hd stuff = CHR ''!''
      then CharSet True (parse_ranges (tl stuff))
      else CharSet False (parse_ranges stuff))"

fun translate :: "string \<Rightarrow> glob list" where
  "translate [] = []"
| "translate (c # cs) =
     (if c = CHR ''*'' then Star # translate cs
      else if c = CHR ''?'' then AnyChar # translate cs
      else if c = CHR ''['' then
        (case bracket_end cs of
           None \<Rightarrow> Lit CHR ''['' # translate cs
         | Some j \<Rightarrow> char_set (take j cs) # translate (drop (Suc j) cs))
      else Lit c # translate cs)"

definition in_char_set :: "bool \<Rightarrow> (char \<times> char) list \<Rightarrow> char \<Rightarrow> bool" where
  "in_char_set negated ranges c =
     (list_ex (\<lambda>(lo, hi). lo \<le> c \<and> c \<le> hi) ranges \<noteq> negated)"

fun glob_match :: "glob list \<Rightarrow> string \<Rightarrow> bool" where
  "glob_match [] s = (s = [])"
| "glob_match (Star # gs) [] = glob_match gs []"
| "glob_match (Star # gs) (c # cs) = (glob_match gs (c # cs) \<or> glob_match (Star # gs) cs)"
| "glob_match (AnyChar # gs) [] = False"
| "glob_match (AnyChar # gs) (c # cs) = glob_match gs cs"
| "glob_match (Lit d # gs) [] = False"
| "glob_match (Lit d # gs) (c # cs) = (c = d \<and> glob_match gs cs)"
| "glob_match (CharSet negated ranges # gs) [] = False"
| "glob_match (CharSet negated ranges # gs) (c # cs) =
     (in_char_set negated ranges c \<and> glob_match gs cs)"

definition fnmatch :: "string \<Rightarrow> string \<Rightarrow> bool" where
  "fnmatch nm pat = glob_match (translate pat) nm"

section \<open>The pattern matcher\<close>

text \<open>
  \<^verbatim>\<open>matches_any\<close>: the loop over the patterns returns at the first one that matches the
  whole identifier. The calls of \<^verbatim>\<open>logging\<close> write diagnostics only and are left out
  of the model, here and below.
\<close>

fun matches_any :: "string \<Rightarrow> string list \<Rightarrow> bool" where
  "matches_any identifier [] = False"
| "matches_any identifier (pattern # patterns) =
     (if fnmatch identifier pattern then True else matches_any identifier patterns)"

section \<open>Ignore files: \<^verbatim>\<open>pathspec\<close>\<close>

text \<open>
  Modelled from the spec: the \<^verbatim>\<open>pathspec\<close> package (\<^verbatim>\<open>PathSpec.from_lines\<close> with the
  \<^verbatim>\<open>gitwildmatch\<close> syntax, and \<^verbatim>\<open>match_file\<close>) is a dependency whose code is not among
  the sources. The spec describes it: the lines of an ignore file are compiled one by one,
  blank lines and lines starting with \<^verbatim>\<open>#\<close> give no rule, a leading \<^verbatim>\<open>!\<close> makes a
  negation, a trailing slash restricts the rule to what lies inside a directory of that
  name, a leading slash anchors the rule at the directory of the ignore file; the
  compiled spec is the ordered list of these rules, and the last rule that matches a path
  decides. As in gitignore, a rule with a slash inside is anchored too, a rule that is
  not anchored may match at any depth, wildcards stay within one component, and a rule
  that matches a directory matches everything beneath it. The double star, backslash
  escapes and trailing blanks have no special meaning in this model.
\<close>

datatype git_pattern =
  GitPattern (negation: bool) (anchored: bool) (directory_only: bool) (segments: "string list")

type_synonym pathspec = "git_pattern list"

fun split :: "char \<Rightarrow> string \<Rightarrow> string list" where
  "split sep [] = [[]]"
| "split sep (c # cs) =
     (if c = sep then [] # split sep cs
      else (case split sep cs of
              [] \<Rightarrow> [[c]]
            | w # ws \<Rightarrow> (c # w) # ws))"

definition compile_line :: "string \<Rightarrow> git_pattern option" where
  "compile_line line =
     (if line = [] \<or> hd line = CHR ''#'' then None
      else
        let neg = (hd line = CHR ''!'');
            body = (if neg then tl line else line);
            dir_only = (body \<noteq> [] \<and> last body = CHR ''/'');
            body1 = (if dir_only then butlast body else body);
            rooted = (body1 \<noteq> [] \<and> hd body1 = CHR ''/'');
            body2 = (if rooted then tl body1 else body1);
            segs = split CHR ''/'' body2
        in if body2 = [] then None
           else Some (GitPattern neg (rooted \<or> 1 < length segs) dir_only segs))"

definition from_lines :: "string list \<Rightarrow> pathspec" where
  "from_lines lines = List.map_filter compile_line lines"

definition match_here :: "git_pattern \<Rightarrow> string list \<Rightarrow> bool" where
  "match_here p segs =
     (let n = length (segments p)
      in n \<le> length segs
         \<and> list_all2 (\<lambda>g s. fnmatch s g) (segments p) (take n segs)
         \<and> (if directory_only p then n < length segs else True))"

fun match_anywhere :: "git_pattern \<Rightarrow> string list \<Rightarrow> bool" where
  "match_anywhere p [] = match_here p []"
| "match_anywhere p (s # segs) = (match_here p (s # segs) \<or> match_anywhere p segs)"

definition pattern_match :: "git_pattern \<Rightarrow> string \<Rightarrow> bool" where
  "pattern_match p file =
     (let segs = split CHR ''/'' file
      in if anchored p then match_here p segs else match_anywhere p segs)"

fun match_rules :: "pathspec \<Rightarrow> string \<Rightarrow> bool \<Rightarrow> bool" where
  "match_rules [] file matched = matched"
| "match_rules (p # ps) file matched =
     match_rules ps file (if pattern_match p file then \<not> negation p else matched)"

definition match_file :: "pathspec \<Rightarrow> string \<Rightarrow> bool" where
  "match_file spec file = match_rules spec file False"

section \<open>The inclusion decider\<close>

text \<open>
  An entry of \<^verbatim>\<open>ignore_specs\<close> is the tuple
  \<^verbatim>\<open>(base_dir, ignore_path, content, spec)\<close> that \<^verbatim>\<open>load_ignore_files\<close> builds.
\<close>

type_synonym ignore_spec = "path \<times> path \<times> string \<times> pathspec"

text \<open>
  The loop over the ignore specs of \<^verbatim>\<open>should_process\<close>: an entry whose base directory
  the path is not under is passed over (the \<^verbatim>\<open>ValueError\<close> is caught), the first entry
  whose spec matches the path relative to its base directory excludes the path.
\<close>

fun ignore_loop :: "path \<Rightarrow> ignore_spec list \<Rightarrow> bool" where
  "ignore_loop path [] = True"
| "ignore_loop path ((base_dir, ignore_path, content, spec) # rest) =
     (case relative_to path base_dir of
        Inl e \<Rightarrow> ignore_loop path rest
      | Inr rel \<Rightarrow>
          if match_file spec (as_posix rel) then False else ignore_loop path rest)"

text \<open>
  \<^verbatim>\<open>should_process\<close>. The first \<^verbatim>\<open>relative_to\<close> is guarded by \<^verbatim>\<open>try\<close> and falls back
  to the components of the path itself; the second one, which computes the identifier, is
  not guarded, so its \<^verbatim>\<open>ValueError\<close> leaves the function.
\<close>

definition should_process ::
  "path \<Rightarrow> string list \<Rightarrow> ignore_spec list \<Rightarrow> path \<Rightarrow> error + bool" where
  "should_process path exclude_patterns ignore_specs project_root =
     (let relative_parts =
            (case relative_to path project_root of
               Inr rel \<Rightarrow> parts rel
             | Inl e \<Rightarrow> parts path)
      in if ''.git'' \<in> set relative_parts then Inr False
         else
           (case relative_to path project_root of
              Inl e \<Rightarrow> Inl e
            | Inr rel \<Rightarrow>
                let identifier = as_posix rel
                in if matches_any identifier exclude_patterns then Inr False
                   else if ignore_specs \<noteq> [] then Inr (ignore_loop path ignore_specs)
                   else Inr True))"

definition is_relative_to :: "path \<Rightarrow> path \<Rightarrow> bool" where
  "is_relative_to p other =
     (case relative_to p other of Inr rel \<Rightarrow> True | Inl e \<Rightarrow> False)"





section \<open>The file system\<close>

text \<open>
  The directory that is scanned is a finite tree of directories and regular files
  (symbolic links and special files are outside the model). A file carries its name, its
  size in bytes (\<^verbatim>\<open>stat().st_size\<close>) and its text, \<open>None\<close> when the bytes are not
  valid UTF-8 and \<^verbatim>\<open>read_text\<close> raises \<^verbatim>\<open>UnicodeDecodeError\<close>. A directory carries its
  name and its entries in the order in which the operating system lists them. A
  \<^verbatim>\<open>Path\<close> object that a traversal holds is modelled by an \<open>entry\<close>: the path together
  with what the file system has there.
\<close>

datatype node = File string nat "string option" | Dir string "node list"

type_synonym entry = "path \<times> node"

fun node_name :: "node \<Rightarrow> string" where
  "node_name (File n sz txt) = n"
| "node_name (Dir n cs) = n"

fun is_dir :: "node \<Rightarrow> bool" where
  "is_dir (File n sz txt) = False"
| "is_dir (Dir n cs) = True"

fun is_file :: "node \<Rightarrow> bool" where
  "is_file (File n sz txt) = True"
| "is_file (Dir n cs) = False"

fun st_size :: "node \<Rightarrow> nat" where
  "st_size (File n sz txt) = sz"
| "st_size (Dir n cs) = 0"

fun read_text :: "node \<Rightarrow> string option" where
  "read_text (File n sz txt) = txt"
| "read_text (Dir n cs) = None"

fun children :: "entry \<Rightarrow> entry list" where
  "children (p, File n sz txt) = []"
| "children (p, Dir n cs) = map (\<lambda>c. (joinpath p (node_name c), c)) cs"

definition iterdir :: "entry \<Rightarrow> error + entry list" where
  "iterdir e = (if is_dir (snd e) then Inr (children e) else Inl NotADirectoryError)"

lemma node_in_list_smaller: "c \<in> set cs \<Longrightarrow> size c < Suc (size_list size cs)"
  by (induction cs) auto

lemma children_smaller:
  assumes "e \<in> set (children d)"
  shows "size (snd e) < size (snd d)"
proof (cases d)
  case (Pair p nd)
  show ?thesis
  proof (cases nd)
    case (File n sz t)
    with Pair assms show ?thesis by simp
  next
    case (Dir n cs)
    with Pair assms obtain c where "c \<in> set cs" and "snd e = c" by auto
    then show ?thesis using Pair Dir node_in_list_smaller [of c cs] by simp
  qed
qed

text \<open>
  \<^verbatim>\<open>rglob("*")\<close> yields everything beneath a directory, hidden entries too: the entries
  of the directory itself, then what lies beneath each of its subdirectories in turn.
\<close>

function rglob :: "entry \<Rightarrow> entry list" where
  "rglob d =
     children d @ concat (map (\<lambda>e. if is_dir (snd e) then rglob e else []) (children d))"
  by pat_completeness auto
termination
  by (relation "measure (\<lambda>d. size (snd d))") (auto dest: children_smaller)

declare rglob.simps [simp del]

text \<open>
  A \<^verbatim>\<open>for\<close> loop that appends to a list and that an exception may leave: \<open>body x\<close>
  is what one round appends (nothing after \<^verbatim>\<open>continue\<close>), or the exception.
\<close>

fun for_each :: "('a \<Rightarrow> error + 'b list) \<Rightarrow> 'a list \<Rightarrow> error + 'b list" where
  "for_each body [] = Inr []"
| "for_each body (x # xs) =
     (case body x of
        Inl e \<Rightarrow> Inl e
      | Inr ys \<Rightarrow>
          (case for_each body xs of
             Inl e \<Rightarrow> Inl e
           | Inr zs \<Rightarrow> Inr (ys @ zs)))"

lemma enumerate_member: "(i, x) \<in> set (enumerate n xs) \<Longrightarrow> x \<in> set xs"
proof -
  assume "(i, x) \<in> set (enumerate n xs)"
  then have "snd (i, x) \<in> set (map snd (enumerate n xs))"
    by (simp only: set_map) (rule imageI)
  then show ?thesis by simp
qed

lemma for_each_cong [fundef_cong]:
  "xs = ys \<Longrightarrow> (\<And>x. x \<in> set ys \<Longrightarrow> f x = g x) \<Longrightarrow> for_each f xs = for_each g ys"
  by (induction ys arbitrary: xs) (auto split: sum.splits)

section \<open>Loading the ignore files\<close>





section \<open>The tree renderer\<close>

text \<open>
  The connectors of the tree are the UTF-8 bytes of the box-drawing characters: a corner
  or a tee, each followed by two horizontal strokes, and a vertical stroke followed by
  three spaces.
\<close>

definition corner :: string where
  "corner = [CHR 0xE2, CHR 0x94, CHR 0x94, CHR 0xE2, CHR 0x94, CHR 0x80, CHR 0xE2, CHR 0x94, CHR 0x80]"

definition tee :: string where
  "tee = [CHR 0xE2, CHR 0x94, CHR 0x9C, CHR 0xE2, CHR 0x94, CHR 0x80, CHR 0xE2, CHR 0x94, CHR 0x80]"

definition bar :: string where
  "bar = [CHR 0xE2, CHR 0x94, CHR 0x82] @ ''   ''"

definition newline :: string where
  "newline = [CHR 0x0A]"

text \<open>\<^verbatim>\<open>str.lower\<close>, on the ASCII letters.\<close>

definition lower :: "string \<Rightarrow> string" where
  "lower s =
     map (\<lambda>c. if CHR ''A'' \<le> c \<and> c \<le> CHR ''Z'' then char_of (of_char c + (32 :: nat)) else c) s"

text \<open>
  The entries of a directory as \<^verbatim>\<open>_tree\<close> visits them: those named \<^verbatim>\<open>__pycache__\<close> or
  \<^verbatim>\<open>.git\<close> are dropped, the others sorted by the key \<^verbatim>\<open>(not is_dir, name.lower())\<close>,
  directories first. The sort is stable, as Python's is.
\<close>

definition sorted_entries :: "entry list \<Rightarrow> entry list" where
  "sorted_entries listing =
     sort_key (\<lambda>x. (\<not> is_dir (snd x), lower (name (fst x))))
       (filter (\<lambda>p. name (fst p) \<notin> {''__pycache__'', ''.git''}) listing)"

lemma set_sorted_entries:
  "set (sorted_entries listing)
     = {p \<in> set listing. name (fst p) \<noteq> ''__pycache__'' \<and> name (fst p) \<noteq> ''.git''}"
  by (auto simp: sorted_entries_def)

lemma enumerated_entry_is_child:
  assumes "(index, entry) \<in> set (enumerate 0 (sorted_entries (children d)))"
  shows "entry \<in> set (children d)"
  using enumerate_member [OF assms] by (simp add: set_sorted_entries)

text \<open>
  The inner function \<^verbatim>\<open>_tree\<close> of \<^verbatim>\<open>generate_tree\<close>, with the variables it takes from
  the enclosing function as its first arguments. Every entry is visited with its index in
  the sorted list, and the connector and the indentation compare that index with the
  length of the sorted list.
\<close>

function tree ::
  "string list \<Rightarrow> ignore_spec list \<Rightarrow> path \<Rightarrow> entry \<Rightarrow> string \<Rightarrow> error + string list" where
  "tree exclude_patterns ignore_specs project_root current_path prefix =
     (case iterdir current_path of
        Inl e \<Rightarrow> Inl e
      | Inr listing \<Rightarrow>
          let entries = sorted_entries listing;
              entries_count = length entries
          in for_each (\<lambda>(index, entry).
               (case should_process (fst entry) exclude_patterns ignore_specs project_root of
                  Inl e \<Rightarrow> Inl e
                | Inr ok \<Rightarrow>
                    if \<not> ok then Inr []
                    else
                      let connector = (if index = entries_count - 1 then corner else tee)
                      in if is_dir (snd entry) then
                           let extension = (if index = entries_count - 1 then ''    '' else bar)
                           in (case tree exclude_patterns ignore_specs project_root entry
                                      (prefix @ extension) of
                                 Inl e \<Rightarrow> Inl e
                               | Inr below \<Rightarrow>
                                   Inr ((prefix @ connector @ '' '' @ name (fst entry) @ ''/'')
                                        # below))
                         else if name (fst entry) = ''__init__.py'' \<and> st_size (snd entry) = 0
                           then Inr []
                         else Inr [prefix @ connector @ '' '' @ name (fst entry)]))
             (enumerate 0 entries))"
  by pat_completeness auto
termination
proof (relation "measure (\<lambda>(ex, specs, root, current, prefix). size (snd current))")
  show "wf (measure (\<lambda>(ex, specs, root, current, prefix). size (snd current)))" by simp
next
  fix exclude_patterns :: "string list" and ignore_specs :: "ignore_spec list"
    and project_root :: path and current_path :: entry and prefix :: string
    and listing entries :: "entry list" and entries_count :: nat
    and ie :: "nat \<times> entry" and index :: nat and entry :: entry
    and ok :: bool and connector extension :: string
  assume "iterdir current_path = Inr listing"
    and "entries = sorted_entries listing"
    and "ie \<in> set (enumerate 0 entries)"
    and "(index, entry) = ie"
  then have "(index, entry) \<in> set (enumerate 0 (sorted_entries (children current_path)))"
    by (auto simp: iterdir_def split: if_splits)
  then have "entry \<in> set (children current_path)"
    by (rule enumerated_entry_is_child)
  then show "((exclude_patterns, ignore_specs, project_root, entry, prefix @ extension),
              (exclude_patterns, ignore_specs, project_root, current_path, prefix))
             \<in> measure (\<lambda>(ex, specs, root, current, prefix). size (snd current))"
    by (simp add: children_smaller)
qed

declare tree.simps [simp del]

text \<open>
  The rows of the rendered tree, for the statements about which entry a line stands for:
  a row is the indentation, the connector and the entry of one line that \<^verbatim>\<open>_tree\<close>
  appends. \<open>rows\<close> walks the directory as \<^verbatim>\<open>_tree\<close> does and keeps the entry where
  \<^verbatim>\<open>_tree\<close> keeps its name only; \<open>render_row\<close> is the line of a row.
\<close>

type_synonym row = "string \<times> string \<times> entry"


definition render_row :: "row \<Rightarrow> string" where
  "render_row r =
     (case r of (prefix, connector, entry) \<Rightarrow>
        prefix @ connector @ '' '' @ name (fst entry) @ (if is_dir (snd entry) then ''/'' else []))"

function rows ::
  "string list \<Rightarrow> ignore_spec list \<Rightarrow> path \<Rightarrow> entry \<Rightarrow> string \<Rightarrow> row list" where
  "rows exclude_patterns ignore_specs project_root current_path prefix =
     (let entries = sorted_entries (children current_path);
          entries_count = length entries
      in concat (map (\<lambda>(index, entry).
           if should_process (fst entry) exclude_patterns ignore_specs project_root \<noteq> Inr True
           then []
           else
             let connector = (if index = entries_count - 1 then corner else tee)
             in if is_dir (snd entry) then
                  let extension = (if index = entries_count - 1 then ''    '' else bar)
                  in (prefix, connector, entry)
                     # rows exclude_patterns ignore_specs project_root entry (prefix @ extension)
                else if name (fst entry) = ''__init__.py'' \<and> st_size (snd entry) = 0
                  then []
                else [(prefix, connector, entry)])
         (enumerate 0 entries)))"
  by pat_completeness auto
termination
proof (relation "measure (\<lambda>(ex, specs, root, current, prefix). size (snd current))")
  show "wf (measure (\<lambda>(ex, specs, root, current, prefix). size (snd current)))" by simp
next
  fix exclude_patterns :: "string list" and ignore_specs :: "ignore_spec list"
    and project_root :: path and current_path :: entry and prefix :: string
    and entries :: "entry list" and entries_count :: nat
    and ie :: "nat \<times> entry" and index :: nat and entry :: entry
    and connector extension :: string
  assume "entries = sorted_entries (children current_path)"
    and "ie \<in> set (enumerate 0 entries)"
    and "(index, entry) = ie"
  then have "(index, entry) \<in> set (enumerate 0 (sorted_entries (children current_path)))"
    by simp
  then have "entry \<in> set (children current_path)"
    by (rule enumerated_entry_is_child)
  then show "((exclude_patterns, ignore_specs, project_root, entry, prefix @ extension),
              (exclude_patterns, ignore_specs, project_root, current_path, prefix))
             \<in> measure (\<lambda>(ex, specs, root, current, prefix). size (snd current))"
    by (simp add: children_smaller)
qed

declare rows.simps [simp del]

text \<open>
  One round of the loop of \<^verbatim>\<open>_tree\<close> and of \<open>rows\<close>, named for the proofs; the two
  lemmas below say that the functions are the loops over these rounds.
\<close>

definition tree_visit ::
  "string list \<Rightarrow> ignore_spec list \<Rightarrow> path \<Rightarrow> string \<Rightarrow> nat \<Rightarrow> nat \<times> entry \<Rightarrow> error + string list" where
  "tree_visit exclude_patterns ignore_specs project_root prefix entries_count =
     (\<lambda>(index, entry).
               (case should_process (fst entry) exclude_patterns ignore_specs project_root of
                  Inl e \<Rightarrow> Inl e
                | Inr ok \<Rightarrow>
                    if \<not> ok then Inr []
                    else
                      let connector = (if index = entries_count - 1 then corner else tee)
                      in if is_dir (snd entry) then
                           let extension = (if index = entries_count - 1 then ''    '' else bar)
                           in (case tree exclude_patterns ignore_specs project_root entry
                                      (prefix @ extension) of
                                 Inl e \<Rightarrow> Inl e
                               | Inr below \<Rightarrow>
                                   Inr ((prefix @ connector @ '' '' @ name (fst entry) @ ''/'')
                                        # below))
                         else if name (fst entry) = ''__init__.py'' \<and> st_size (snd entry) = 0
                           then Inr []
                         else Inr [prefix @ connector @ '' '' @ name (fst entry)]))"

definition rows_visit ::
  "string list \<Rightarrow> ignore_spec list \<Rightarrow> path \<Rightarrow> string \<Rightarrow> nat \<Rightarrow> nat \<times> entry \<Rightarrow> row list" where
  "rows_visit exclude_patterns ignore_specs project_root prefix entries_count =
     (\<lambda>(index, entry).
           if should_process (fst entry) exclude_patterns ignore_specs project_root \<noteq> Inr True
           then []
           else
             let connector = (if index = entries_count - 1 then corner else tee)
             in if is_dir (snd entry) then
                  let extension = (if index = entries_count - 1 then ''    '' else bar)
                  in (prefix, connector, entry)
                     # rows exclude_patterns ignore_specs project_root entry (prefix @ extension)
                else if name (fst entry) = ''__init__.py'' \<and> st_size (snd entry) = 0
                  then []
                else [(prefix, connector, entry)])"

lemma tree_unfold:
  "tree exclude_patterns ignore_specs project_root current_path prefix =
     (case iterdir current_path of
        Inl e \<Rightarrow> Inl e
      | Inr listing \<Rightarrow>
          for_each (tree_visit exclude_patterns ignore_specs project_root prefix
                      (length (sorted_entries listing)))
            (enumerate 0 (sorted_entries listing)))"
  by (subst tree.simps, cases "iterdir current_path") (simp_all add: tree_visit_def Let_def)

lemma rows_unfold:
  "rows exclude_patterns ignore_specs project_root current_path prefix =
     concat (map (rows_visit exclude_patterns ignore_specs project_root prefix
                    (length (sorted_entries (children current_path))))
       (enumerate 0 (sorted_entries (children current_path))))"
  by (subst rows.simps) (simp add: rows_visit_def Let_def)

definition generate_tree ::
  "entry \<Rightarrow> string list \<Rightarrow> ignore_spec list \<Rightarrow> path option \<Rightarrow> error + string" where
  "generate_tree dir_path exclude_patterns ignore_specs project_root =
     (let root = (case project_root of None \<Rightarrow> fst dir_path | Some r \<Rightarrow> r)
      in (case tree exclude_patterns ignore_specs root dir_path [] of
            Inl e \<Rightarrow> Inl e
          | Inr tree_lines \<Rightarrow>
              Inr (join newline ((name (fst dir_path) @ ''/'') # tree_lines))))"

section \<open>The file collector\<close>

text \<open>
  \<^verbatim>\<open>get_code_files\<close>: every entry beneath the directory is judged by itself; the walk
  goes on beneath a directory whatever the decision about the directory was.
\<close>

definition get_code_files ::
  "entry \<Rightarrow> string list \<Rightarrow> ignore_spec list \<Rightarrow> path option \<Rightarrow> error + (string \<times> entry) list" where
  "get_code_files dir_path exclude_patterns ignore_specs project_root =
     (let root = (case project_root of None \<Rightarrow> fst dir_path | Some r \<Rightarrow> r)
      in for_each (\<lambda>path.
           let relative_parts =
                 (case relative_to (fst path) root of
                    Inr rel \<Rightarrow> parts rel
                  | Inl e \<Rightarrow> parts (fst path))
           in if ''.git'' \<in> set relative_parts then Inr []
              else
                (case should_process (fst path) exclude_patterns ignore_specs root of
                   Inl e \<Rightarrow> Inl e
                 | Inr ok \<Rightarrow>
                     if \<not> ok then Inr []
                     else if is_file (snd path) then
                       if name (fst path) = ''__init__.py'' \<and> st_size (snd path) = 0
                       then Inr []
                       else
                         (case relative_to (fst path) (fst dir_path) of
                            Inl e \<Rightarrow> Inl e
                          | Inr rel_path \<Rightarrow> Inr [(as_posix rel_path, path)])
                     else Inr []))
         (rglob dir_path))"






section \<open>The document assembler\<close>

text \<open>
  \<^verbatim>\<open>resolve\<close> makes the path absolute from the working directory and removes the
  \<^verbatim>\<open>..\<close> components (there are no symbolic links in the model).
\<close>

fun normalize :: "string list \<Rightarrow> string list \<Rightarrow> string list" where
  "normalize [] done = rev done"
| "normalize (x # xs) done =
     (if x = ''..'' then normalize xs (case done of [] \<Rightarrow> [] | d # ds \<Rightarrow> ds)
      else normalize xs (x # done))"

definition resolve :: "path \<Rightarrow> path \<Rightarrow> path" where
  "resolve cwd p =
     Path True (normalize (if is_absolute p then names p else names cwd @ names p) [])"

text \<open>
  What the loop over the collected files writes for one file: the heading, the opening
  fence with the language tag, the content (or the placeholder, when the file does not
  decode), and the closing fence.
\<close>

definition code_section :: "string \<Rightarrow> entry \<Rightarrow> string" where
  "code_section rel_path file_path =
     (let extension =
            (if suffix (fst file_path) \<noteq> [] then tl (suffix (fst file_path))
             else stem (fst file_path));
          code_block_start =
            (if extension = ''md'' then ''````'' @ extension @ newline
             else ''```'' @ extension @ newline);
          content =
            (case read_text (snd file_path) of
               Some t \<Rightarrow> t
             | None \<Rightarrow> ''# [Binary file not displayed]'' @ newline);
          code_block_end =
            (if extension = ''md'' then ''````'' @ newline @ newline
             else ''```'' @ newline @ newline)
      in ''### '' @ rel_path @ newline @ code_block_start @ content @ newline @ code_block_end)"

text \<open>
  \<^verbatim>\<open>create_markdown\<close>. The result is the text that has been written to the output file
  when the function is left, and the exception that left it, if any. The traversals see
  the directory as it is given here.
\<close>

definition create_markdown ::
  "path \<Rightarrow> entry \<Rightarrow> string list \<Rightarrow> ignore_spec list \<Rightarrow> bool \<Rightarrow> string \<times> error option" where
  "create_markdown cwd dir_path exclude_patterns ignore_specs tree_only =
     (let project_name = name (resolve cwd (fst dir_path));
          head = ''# '' @ project_name @ '' Overview'' @ newline @ newline
                 @ ''## Folder Structure'' @ newline
                 @ ''```tree'' @ newline
      in (case generate_tree dir_path exclude_patterns ignore_specs (Some (fst dir_path)) of
            Inl e \<Rightarrow> (head, Some e)
          | Inr tree_str \<Rightarrow>
              let folder = head @ tree_str @ newline @ ''```'' @ newline @ newline
              in if \<not> tree_only then
                   (case get_code_files dir_path exclude_patterns ignore_specs
                           (Some (fst dir_path)) of
                      Inl e \<Rightarrow> (folder @ ''## Code'' @ newline, Some e)
                    | Inr code_files \<Rightarrow>
                        (folder @ ''## Code'' @ newline
                           @ concat (map (\<lambda>(rel_path, file_path). code_section rel_path file_path)
                               code_files),
                         None))
                 else (folder, None)))"

section \<open>The command\<close>




text \<open>
  The language tag and the fence as the spec words them, to compare
  \<^verbatim>\<open>create_markdown\<close> with: the tag of a file name is its extension without the
  leading dot, the extension being what follows the last dot of the name when that dot is
  neither the first nor the last character, and the whole name (the stem) when there is no
  extension; the fence is four backticks for the tag \<^verbatim>\<open>md\<close> and three otherwise.
\<close>

definition spec_language_tag :: "string \<Rightarrow> string" where
  "spec_language_tag nm =
     (let ext = rev (takeWhile (\<lambda>c. c \<noteq> CHR ''.'') (rev nm))
      in if CHR ''.'' \<in> set nm \<and> ext \<noteq> [] \<and> length ext + 1 < length nm then ext else nm)"

definition spec_fence :: "string \<Rightarrow> string" where
  "spec_fence tag = replicate (if tag = ''md'' then 4 else 3) (CHR 0x60)"

section \<open>Example inputs\<close>

text \<open>
  A small project for the concrete instances below: \<^verbatim>\<open>proj\<close> holds \<^verbatim>\<open>README.md\<close>,
  \<^verbatim>\<open>Makefile\<close> and \<^verbatim>\<open>a.py\<close>; next to it lies the regular file \<^verbatim>\<open>notes.txt\<close>.
\<close>

definition example_project :: node where
  "example_project =
     Dir ''proj''
       [File ''README.md'' 2 (Some ''hi''), File ''Makefile'' 4 (Some ''all:''),
        File ''a.py'' 3 (Some ''x=1'')]"


section \<open>Facts about paths and the inclusion decider\<close>

lemma matches_any_iff:
  "matches_any identifier patterns \<longleftrightarrow> (\<exists>p \<in> set patterns. fnmatch identifier p)"
  by (induction patterns) auto

lemma ignore_loop_iff:
  "ignore_loop path specs \<longleftrightarrow>
     (\<forall>(base_dir, ignore_path, content, spec) \<in> set specs.
        \<forall>rel. relative_to path base_dir = Inr rel \<longrightarrow> \<not> match_file spec (as_posix rel))"
  by (induction specs) (auto split: sum.splits if_splits)

lemma ignore_loop_Nil_iff:
  "(if specs \<noteq> [] then Inr (ignore_loop path specs) else Inr True)
     = (Inr (ignore_loop path specs) :: error + bool)"
  by (cases specs) auto

lemma should_process_Inr:
  assumes "relative_to path project_root = Inr rel"
  shows "should_process path exclude_patterns ignore_specs project_root =
     Inr (''.git'' \<notin> set (parts rel) \<and> \<not> matches_any (as_posix rel) exclude_patterns
          \<and> ignore_loop path ignore_specs)"
  using assms by (simp add: should_process_def ignore_loop_Nil_iff Let_def)

lemma should_process_Inl:
  assumes "relative_to path project_root = Inl e"
  shows "should_process path exclude_patterns ignore_specs project_root =
     (if ''.git'' \<in> set (parts path) then Inr False else Inl e)"
  using assms by (simp add: should_process_def)

lemma relative_to_joinpath:
  assumes "relative_to p other = Inr rel"
  shows "relative_to (joinpath p n) other = Inr (joinpath rel n)"
proof -
  from assms have a: "is_absolute p = is_absolute other"
    and t: "take (length (names other)) (names p) = names other"
    and r: "rel = Path False (drop (length (names other)) (names p))"
    by (auto simp: relative_to_def split: if_splits)
  from t have "length (take (length (names other)) (names p)) = length (names other)"
    by simp
  then have "length (names other) \<le> length (names p)"
    by (simp add: min_def split: if_splits)
  with a t r show ?thesis
    by (simp add: relative_to_def joinpath_def)
qed

lemma relative_to_self: "relative_to p p = Inr (Path False [])"
  by (simp add: relative_to_def)

lemma parts_relative [simp]: "parts (Path False ns) = ns"
  by (simp add: parts_def)

lemma joinpath_relative [simp]: "joinpath (Path False ns) n = Path False (ns @ [n])"
  by (simp add: joinpath_def)

lemma should_process_loop_cong:
  assumes "ignore_loop path specs1 = ignore_loop path specs2"
  shows "should_process path exclude_patterns specs1 project_root
       = should_process path exclude_patterns specs2 project_root"
proof (cases "relative_to path project_root")
  case (Inl e)
  then show ?thesis by (simp add: should_process_Inl)
next
  case (Inr rel)
  then show ?thesis using assms by (simp add: should_process_Inr)
qed



section \<open>Facts about the traversals\<close>


lemma for_each_total:
  assumes "\<And>x. x \<in> set xs \<Longrightarrow> \<exists>ys. f x = Inr ys"
  shows "\<exists>zs. for_each f xs = Inr zs"
  using assms
proof (induction xs)
  case Nil
  then show ?case by simp
next
  case (Cons x xs)
  then obtain ys zs where "f x = Inr ys" and "for_each f xs = Inr zs"
    by (meson list.set_intros)
  then show ?case by simp
qed

lemma for_each_link:
  assumes "\<And>x ys. x \<in> set xs \<Longrightarrow> f x = Inr ys \<Longrightarrow> ys = map h (g x)"
    and "for_each f xs = Inr zs"
  shows "zs = map h (concat (map g xs))"
  using assms
proof (induction xs arbitrary: zs)
  case Nil
  then show ?case by simp
next
  case (Cons x xs)
  from Cons.prems(2) obtain ys zs' where fx: "f x = Inr ys" and r: "for_each f xs = Inr zs'"
    and z: "zs = ys @ zs'"
    by (auto split: sum.splits)
  have "ys = map h (g x)" using Cons.prems(1) fx by simp
  moreover have "zs' = map h (concat (map g xs))"
    using Cons.IH [OF _ r] Cons.prems(1) by simp
  ultimately show ?case using z by simp
qed

lemma is_relative_to_joinpath:
  "is_relative_to p other \<Longrightarrow> is_relative_to (joinpath p n) other"
  by (auto simp: is_relative_to_def relative_to_joinpath split: sum.splits)

lemma is_relative_to_self: "is_relative_to p p"
  by (simp add: is_relative_to_def relative_to_self)

lemma should_process_total:
  assumes "is_relative_to path project_root"
  shows "\<exists>b. should_process path exclude_patterns ignore_specs project_root = Inr b"
  using assms by (auto simp: is_relative_to_def should_process_Inr split: sum.splits)

lemma children_path:
  assumes "e \<in> set (children d)"
  shows "fst e = joinpath (fst d) (node_name (snd e))"
  using assms by (cases d, cases "snd d") auto

lemma tree_visit_link:
  assumes "\<And>prefix' ls. tree exclude_patterns ignore_specs project_root entry prefix' = Inr ls
              \<Longrightarrow> ls = map render_row (rows exclude_patterns ignore_specs project_root entry prefix')"
    and "tree_visit exclude_patterns ignore_specs project_root prefix n (index, entry) = Inr ls"
  shows "ls = map render_row
                (rows_visit exclude_patterns ignore_specs project_root prefix n (index, entry))"
  using assms(2) assms(1)
  by (auto simp: tree_visit_def rows_visit_def render_row_def Let_def
           split: sum.splits if_splits)

lemma tree_rows_link:
  assumes "tree exclude_patterns ignore_specs project_root current_path prefix = Inr ls"
  shows "ls = map render_row (rows exclude_patterns ignore_specs project_root current_path prefix)"
  using assms
proof (induction "size (snd current_path)" arbitrary: current_path prefix ls rule: less_induct)
  case less
  from less.prems have it: "iterdir current_path = Inr (children current_path)"
    by (auto simp: tree_unfold iterdir_def split: if_splits)
  from less.prems it have fe: "for_each (tree_visit exclude_patterns ignore_specs project_root prefix
                      (length (sorted_entries (children current_path))))
            (enumerate 0 (sorted_entries (children current_path))) = Inr ls"
    by (simp add: tree_unfold)
  have "ls = map render_row (concat (map (rows_visit exclude_patterns ignore_specs project_root prefix
                    (length (sorted_entries (children current_path))))
       (enumerate 0 (sorted_entries (children current_path)))))"
  proof (rule for_each_link [OF _ fe])
    fix x ys
    assume x: "x \<in> set (enumerate 0 (sorted_entries (children current_path)))"
      and v: "tree_visit exclude_patterns ignore_specs project_root prefix
           (length (sorted_entries (children current_path))) x = Inr ys"
    obtain index entry where xe: "x = (index, entry)" by (cases x)
    with x have "entry \<in> set (children current_path)"
      using enumerated_entry_is_child by simp
    then have "size (snd entry) < size (snd current_path)"
      by (rule children_smaller)
    then have "\<And>prefix' ls. tree exclude_patterns ignore_specs project_root entry prefix' = Inr ls
              \<Longrightarrow> ls = map render_row (rows exclude_patterns ignore_specs project_root entry prefix')"
      using less.hyps by blast
    from tree_visit_link [OF this] v xe
    show "ys = map render_row (rows_visit exclude_patterns ignore_specs project_root prefix
           (length (sorted_entries (children current_path))) x)"
      by simp
  qed
  then show ?case by (simp add: rows_unfold)
qed

lemma tree_visit_total:
  assumes "\<And>prefix'. is_dir (snd entry) \<Longrightarrow>
             \<exists>ls. tree exclude_patterns ignore_specs project_root entry prefix' = Inr ls"
    and "is_relative_to (fst entry) project_root"
  shows "\<exists>ls. tree_visit exclude_patterns ignore_specs project_root prefix n (index, entry) = Inr ls"
proof -
  obtain ok where ok: "should_process (fst entry) exclude_patterns ignore_specs project_root = Inr ok"
    using should_process_total [OF assms(2)] by blast
  show ?thesis
  proof (cases "ok \<and> is_dir (snd entry)")
    case True
    then obtain ls where "tree exclude_patterns ignore_specs project_root entry
              (prefix @ (if index = n - 1 then ''    '' else bar)) = Inr ls"
      using assms(1) by blast
    with ok True show ?thesis by (simp add: tree_visit_def Let_def)
  next
    case False
    with ok show ?thesis by (auto simp: tree_visit_def Let_def)
  qed
qed

lemma tree_total:
  assumes "is_dir (snd current_path)" and "is_relative_to (fst current_path) project_root"
  shows "\<exists>ls. tree exclude_patterns ignore_specs project_root current_path prefix = Inr ls"
  using assms
proof (induction "size (snd current_path)" arbitrary: current_path prefix rule: less_induct)
  case less
  have it: "iterdir current_path = Inr (children current_path)"
    using less.prems(1) by (simp add: iterdir_def)
  have "\<exists>zs. for_each (tree_visit exclude_patterns ignore_specs project_root prefix
                      (length (sorted_entries (children current_path))))
            (enumerate 0 (sorted_entries (children current_path))) = Inr zs"
  proof (rule for_each_total)
    fix x
    assume x: "x \<in> set (enumerate 0 (sorted_entries (children current_path)))"
    obtain index entry where xe: "x = (index, entry)" by (cases x)
    with x have c: "entry \<in> set (children current_path)"
      using enumerated_entry_is_child by simp
    then have sm: "size (snd entry) < size (snd current_path)"
      by (rule children_smaller)
    have rel: "is_relative_to (fst entry) project_root"
      using children_path [OF c] less.prems(2) by (simp add: is_relative_to_joinpath)
    have "\<And>prefix'. is_dir (snd entry) \<Longrightarrow>
             \<exists>ls. tree exclude_patterns ignore_specs project_root entry prefix' = Inr ls"
      using less.hyps [OF sm _ rel] by blast
    from tree_visit_total [OF this rel] xe
    show "\<exists>ys. tree_visit exclude_patterns ignore_specs project_root prefix
           (length (sorted_entries (children current_path))) x = Inr ys"
      by simp
  qed
  then show ?case by (simp add: tree_unfold it)
qed

lemma names_joinpath [simp]: "names (joinpath p n) = names p @ [n]"
  and is_absolute_joinpath [simp]: "is_absolute (joinpath p n) = is_absolute p"
  and name_joinpath [simp]: "name (joinpath p n) = n"
  by (simp_all add: joinpath_def name_def)

















lemma generate_tree_rows:
  assumes "is_dir (snd dir_path)"
    and "(case project_root of None \<Rightarrow> fst dir_path | Some r \<Rightarrow> r) = fst dir_path"
  shows "generate_tree dir_path ex specs project_root =
           Inr (join newline ((name (fst dir_path) @ ''/'')
                  # map render_row (rows ex specs (fst dir_path) dir_path [])))"
proof -
  obtain ls where ls: "tree ex specs (fst dir_path) dir_path [] = Inr ls"
    using tree_total [OF assms(1) is_relative_to_self] by blast
  from tree_rows_link [OF this] ls show ?thesis
    by (simp add: generate_tree_def assms(2))
qed



section \<open>The tree renderer and the file collector\<close>





section \<open>The connectors of the tree\<close>

text \<open>
  Claim C2 does not hold of the code. The connector of a line compares the index of the
  entry with the length of the sorted list of entries, which is taken before
  \<^verbatim>\<open>should_process\<close> and the test for an empty \<^verbatim>\<open>__init__.py\<close> drop entries. When the
  last entry of that list is dropped, the last line that is rendered for the directory
  carries the tee and no line carries the corner: for a project with \<^verbatim>\<open>a.py\<close> and
  \<^verbatim>\<open>b.md\<close> and the exclude pattern \<^verbatim>\<open>*.md\<close>, the only line below the root is
  the tee line of \<^verbatim>\<open>a.py\<close>.
\<close>

theorem last_rendered_sibling_keeps_tee:
  "generate_tree
     (Path False [''proj''], Dir ''proj'' [File ''a.py'' 1 (Some ''x''), File ''b.md'' 1 (Some ''y'')])
     [''*.md''] [] None
   = Inr (''proj/'' @ newline @ tee @ '' a.py'')"
  by code_simp

section \<open>The \<^verbatim>\<open>.git\<close> rule\<close>




section \<open>Precedence of the exclude patterns\<close>

text \<open>
  Claim C4. When the identifier of a path, that is the path relative to the project root in
  POSIX notation, matches one of the exclude patterns of the command line as a whole
  under \<^verbatim>\<open>fnmatch\<close>, then \<^verbatim>\<open>should_process\<close> returns \<open>False\<close>, whatever the ignore specs
  hold.
\<close>

theorem cli_exclude_precedence:
  assumes "relative_to path project_root = Inr rel"
    and "pattern \<in> set exclude_patterns"
    and "fnmatch (as_posix rel) pattern"
  shows "should_process path exclude_patterns ignore_specs project_root = Inr False"
  using assms by (auto simp: should_process_Inr matches_any_iff)

theorem cli_exclude_precedence_witness:
  "relative_to (Path False [''proj'', ''docs'', ''README.md'']) (Path False [''proj''])
     = Inr (Path False [''docs'', ''README.md''])
   \<and> ''*.md'' \<in> set [''*.py'', ''*.md'']
   \<and> fnmatch (as_posix (Path False [''docs'', ''README.md''])) ''*.md''
   \<and> should_process (Path False [''proj'', ''docs'', ''README.md'']) [''*.py'', ''*.md'']
        [(Path False [''proj''], Path False [''proj'', ''.llmignore''], ''!*.md'',
          from_lines [''!*.md''])]
        (Path False [''proj'']) = Inr False"
proof -
  have h1: "relative_to (Path False [''proj'', ''docs'', ''README.md'']) (Path False [''proj''])
     = Inr (Path False [''docs'', ''README.md''])"
    by (simp add: relative_to_def)
  have h2: "''*.md'' \<in> set [''*.py'', ''*.md'']"
    by simp
  have h3: "fnmatch (as_posix (Path False [''docs'', ''README.md''])) ''*.md''"
    by code_simp
  show ?thesis
    using h1 h2 h3 cli_exclude_precedence [OF h1 h2 h3] by simp
qed

section \<open>Negation inside one ignore spec\<close>

lemma spec_build_keep:
  "match_file (from_lines [''build/*'', ''!build/keep.txt'']) ''build/keep.txt'' = False"
  by code_simp

lemma spec_build_other:
  "match_file (from_lines [''build/*'', ''!build/keep.txt'']) ''build/other.txt'' = True"
  by code_simp

text \<open>
  Claim C5. Take the ignore spec compiled from the two lines \<^verbatim>\<open>build/*\<close> and
  \<^verbatim>\<open>!build/keep.txt\<close>, with any directory under the project root as its scope root
  (no \<^verbatim>\<open>.git\<close> on the way from the project root to it), and no exclude patterns. Then
  \<^verbatim>\<open>should_process\<close> returns \<open>True\<close> for \<^verbatim>\<open>build/keep.txt\<close> in that directory and
  \<open>False\<close> for \<^verbatim>\<open>build/other.txt\<close>.
\<close>

theorem negation_within_spec:
  assumes "relative_to base_dir project_root = Inr rd" and "''.git'' \<notin> set (parts rd)"
  shows "should_process (joinpath (joinpath base_dir ''build'') ''keep.txt'') []
           [(base_dir, ignore_path, content, from_lines [''build/*'', ''!build/keep.txt''])]
           project_root = Inr True
       \<and> should_process (joinpath (joinpath base_dir ''build'') ''other.txt'') []
           [(base_dir, ignore_path, content, from_lines [''build/*'', ''!build/keep.txt''])]
           project_root = Inr False"
proof -
  have k: "relative_to (joinpath (joinpath base_dir ''build'') f) project_root
             = Inr (joinpath (joinpath rd ''build'') f)" for f
    using assms(1) by (simp add: relative_to_joinpath)
  have b: "relative_to (joinpath (joinpath base_dir ''build'') f) base_dir
             = Inr (Path False [''build'', f])" for f
    using relative_to_joinpath [OF relative_to_joinpath [OF relative_to_self]] by simp
  have g: "''.git'' \<notin> set (parts (joinpath (joinpath rd ''build'') f))" if "f \<noteq> ''.git''" for f
    using assms(2) that by (simp add: parts_def joinpath_def)
  have p1: "as_posix (Path False [''build'', ''keep.txt'']) = ''build/keep.txt''"
    and p2: "as_posix (Path False [''build'', ''other.txt'']) = ''build/other.txt''"
    by (simp_all add: as_posix_def)
  show ?thesis
    by (simp add: should_process_Inr [OF k] g b p1 p2 spec_build_keep spec_build_other)
qed

theorem negation_within_spec_witness:
  "relative_to (Path False [''proj'', ''sub'']) (Path False [''proj'']) = Inr (Path False [''sub''])
   \<and> ''.git'' \<notin> set (parts (Path False [''sub'']))
   \<and> should_process (Path False [''proj'', ''sub'', ''build'', ''keep.txt'']) []
        [(Path False [''proj'', ''sub''], Path False [''proj'', ''sub'', ''.llmignore''],
          ''build/*'' @ newline @ ''!build/keep.txt'' @ newline,
          from_lines [''build/*'', ''!build/keep.txt''])]
        (Path False [''proj'']) = Inr True
   \<and> should_process (Path False [''proj'', ''sub'', ''build'', ''other.txt'']) []
        [(Path False [''proj'', ''sub''], Path False [''proj'', ''sub'', ''.llmignore''],
          ''build/*'' @ newline @ ''!build/keep.txt'' @ newline,
          from_lines [''build/*'', ''!build/keep.txt''])]
        (Path False [''proj'']) = Inr False"
proof -
  have h1: "relative_to (Path False [''proj'', ''sub'']) (Path False [''proj''])
              = Inr (Path False [''sub''])"
    by (simp add: relative_to_def)
  have h2: "''.git'' \<notin> set (parts (Path False [''sub'']))"
    by simp
  show ?thesis
    using h1 h2 negation_within_spec [OF h1 h2,
        of "Path False [''proj'', ''sub'', ''.llmignore'']"
           "''build/*'' @ newline @ ''!build/keep.txt'' @ newline"]
    by (simp add: joinpath_def)
qed

section \<open>Scope of an ignore spec\<close>




section \<open>Order of the ignore specs\<close>

text \<open>
  Claim C7. The result of \<^verbatim>\<open>should_process\<close> is the same for any two lists of ignore
  specs that are permutations of each other, for every path, every list of exclude
  patterns and every project root (an exception included: it does not depend on the
  ignore specs at all).
\<close>

theorem ignore_specs_order_irrelevant:
  assumes "mset ignore_specs = mset ignore_specs'"
  shows "should_process path exclude_patterns ignore_specs project_root
       = should_process path exclude_patterns ignore_specs' project_root"
proof -
  from assms have "set ignore_specs = set ignore_specs'"
    by (rule mset_eq_setD)
  then have "ignore_loop path ignore_specs = ignore_loop path ignore_specs'"
    by (simp add: ignore_loop_iff)
  then show ?thesis
    by (rule should_process_loop_cong)
qed

text \<open>
  The witness: a \<^verbatim>\<open>.gitignore\<close> spec that excludes the path and an \<^verbatim>\<open>.llmignore\<close> spec
  that does not, in both orders.
\<close>

theorem ignore_specs_order_irrelevant_witness:
  "mset [(Path False [''proj''], Path False [''proj'', ''.llmignore''], ''*.log'', from_lines [''*.log'']),
         (Path False [''proj''], Path False [''proj'', ''.gitignore''], ''*.py'', from_lines [''*.py''])]
   = mset [(Path False [''proj''], Path False [''proj'', ''.gitignore''], ''*.py'', from_lines [''*.py'']),
           (Path False [''proj''], Path False [''proj'', ''.llmignore''], ''*.log'', from_lines [''*.log''])]
   \<and> should_process (Path False [''proj'', ''a.py'']) []
        [(Path False [''proj''], Path False [''proj'', ''.llmignore''], ''*.log'', from_lines [''*.log'']),
         (Path False [''proj''], Path False [''proj'', ''.gitignore''], ''*.py'', from_lines [''*.py''])]
        (Path False [''proj''])
     = should_process (Path False [''proj'', ''a.py'']) []
        [(Path False [''proj''], Path False [''proj'', ''.gitignore''], ''*.py'', from_lines [''*.py'']),
         (Path False [''proj''], Path False [''proj'', ''.llmignore''], ''*.log'', from_lines [''*.log''])]
        (Path False [''proj''])
   \<and> should_process (Path False [''proj'', ''a.py'']) []
        [(Path False [''proj''], Path False [''proj'', ''.gitignore''], ''*.py'', from_lines [''*.py'']),
         (Path False [''proj''], Path False [''proj'', ''.llmignore''], ''*.log'', from_lines [''*.log''])]
        (Path False [''proj'']) = Inr False"
proof -
  have h: "mset [(Path False [''proj''], Path False [''proj'', ''.llmignore''], ''*.log'', from_lines [''*.log'']),
         (Path False [''proj''], Path False [''proj'', ''.gitignore''], ''*.py'', from_lines [''*.py''])]
   = mset [(Path False [''proj''], Path False [''proj'', ''.gitignore''], ''*.py'', from_lines [''*.py'']),
           (Path False [''proj''], Path False [''proj'', ''.llmignore''], ''*.log'', from_lines [''*.log''])]"
    by (simp add: add_mset_commute)
  have m: "match_file (from_lines [''*.py'']) ''a.py'' = True"
    by code_simp
  have v: "should_process (Path False [''proj'', ''a.py'']) []
        [(Path False [''proj''], Path False [''proj'', ''.gitignore''], ''*.py'', from_lines [''*.py'']),
         (Path False [''proj''], Path False [''proj'', ''.llmignore''], ''*.log'', from_lines [''*.log''])]
        (Path False [''proj'']) = Inr False"
    by (simp add: should_process_def relative_to_def as_posix_def m)
  from h v ignore_specs_order_irrelevant [OF h, of "Path False [''proj'', ''a.py'']" "[]" "Path False [''proj'']"]
  show ?thesis by simp
qed

section \<open>Language tag and fence of a code block\<close>

lemma split_last_dot:
  assumes "CHR ''.'' \<in> set nm"
  shows "\<exists>pre. nm = pre @ CHR ''.'' # rev (takeWhile (\<lambda>c. c \<noteq> CHR ''.'') (rev nm))"
proof -
  let ?P = "\<lambda>c. c \<noteq> CHR ''.''"
  from assms have "dropWhile ?P (rev nm) \<noteq> []"
    by (simp add: dropWhile_eq_Nil_conv)
  then obtain d rest where dr: "dropWhile ?P (rev nm) = d # rest"
    by (cases "dropWhile ?P (rev nm)") auto
  then have "d = CHR ''.''"
    using hd_dropWhile [of ?P "rev nm"] by force
  with dr have "rev nm = takeWhile ?P (rev nm) @ CHR ''.'' # rest"
    using takeWhile_dropWhile_id [of ?P "rev nm"] by simp
  then have "rev (rev nm) = rev (takeWhile ?P (rev nm) @ CHR ''.'' # rest)"
    by (rule arg_cong)
  then have "nm = rev rest @ CHR ''.'' # rev (takeWhile ?P (rev nm))"
    by simp
  then show ?thesis ..
qed

lemma language_tag_eq:
  "(if suffix p \<noteq> [] then tl (suffix p) else stem p) = spec_language_tag (name p)"
proof (cases "CHR ''.'' \<in> set (name p)")
  case False
  then show ?thesis
    by (simp add: suffix_def stem_def rfind_dot_def spec_language_tag_def)
next
  case True
  define ext where "ext = rev (takeWhile (\<lambda>c. c \<noteq> CHR ''.'') (rev (name p)))"
  from split_last_dot [OF True] obtain pre where nm: "name p = pre @ CHR ''.'' # ext"
    unfolding ext_def by blast
  have len: "length (name p) = length pre + 1 + length ext"
    using arg_cong [OF nm, of length] by simp
  have tw: "length (takeWhile (\<lambda>c. c \<noteq> CHR ''.'') (rev (name p))) = length ext"
    by (simp add: ext_def)
  have i: "rfind_dot (name p) = Some (length pre)"
    using True len tw by (simp add: rfind_dot_def)
  have d: "drop (length pre) (name p) = CHR ''.'' # ext"
    by (simp add: nm)
  have t: "take (length pre) (name p) = pre"
    by (simp add: nm)
  have s: "spec_language_tag (name p) =
             (if ext \<noteq> [] \<and> length ext + 1 < length (name p) then ext else name p)"
    using True by (simp add: spec_language_tag_def ext_def [symmetric])
  show ?thesis
    unfolding s suffix_def stem_def i option.case d t
    using len by auto
qed


lemma code_section_eq:
  "code_section rel_path file_path =
     ''### '' @ rel_path @ newline
     @ spec_fence (spec_language_tag (name (fst file_path)))
     @ spec_language_tag (name (fst file_path)) @ newline
     @ (case read_text (snd file_path) of
          Some t \<Rightarrow> t
        | None \<Rightarrow> ''# [Binary file not displayed]'' @ newline)
     @ newline
     @ spec_fence (spec_language_tag (name (fst file_path))) @ newline @ newline"
  by (simp add: code_section_def language_tag_eq spec_fence_def Let_def numeral_eq_Suc)

text \<open>
  Claim C8. When \<^verbatim>\<open>create_markdown\<close> writes the code sections, the text is the text
  written up to the tree (what \<^verbatim>\<open>tree_only\<close> would give), the heading of the code part,
  and one block per collected file: the heading with the relative path, the opening
  fence followed by the language tag, the content or the placeholder, and the closing
  fence. The tag is the extension of the file without its dot, or the stem when the file
  has no extension (in the words of \<^verbatim>\<open>pathlib\<close>: \<^verbatim>\<open>suffix\<close> without its first character,
  or \<^verbatim>\<open>stem\<close> when \<^verbatim>\<open>suffix\<close> is empty); both fences are four backticks when the tag
  is \<^verbatim>\<open>md\<close> and three otherwise.
\<close>

theorem code_block_tag_and_fence:
  assumes "is_dir (snd dir_path)"
    and "get_code_files dir_path exclude_patterns ignore_specs (Some (fst dir_path)) = Inr code_files"
  shows "create_markdown cwd dir_path exclude_patterns ignore_specs False =
      (fst (create_markdown cwd dir_path exclude_patterns ignore_specs True)
       @ ''## Code'' @ newline
       @ concat (map (\<lambda>(rel_path, file_path).
           ''### '' @ rel_path @ newline
           @ spec_fence (spec_language_tag (name (fst file_path)))
           @ spec_language_tag (name (fst file_path)) @ newline
           @ (case read_text (snd file_path) of
                Some t \<Rightarrow> t
              | None \<Rightarrow> ''# [Binary file not displayed]'' @ newline)
           @ newline
           @ spec_fence (spec_language_tag (name (fst file_path))) @ newline @ newline)
         code_files),
       None)
    \<and> spec_language_tag (name p) = (if suffix p = [] then stem p else tl (suffix p))"
proof -
  have "(\<lambda>(rel_path, file_path). code_section rel_path file_path) =
        (\<lambda>(rel_path, file_path).
           ''### '' @ rel_path @ newline
           @ spec_fence (spec_language_tag (name (fst file_path)))
           @ spec_language_tag (name (fst file_path)) @ newline
           @ (case read_text (snd file_path) of
                Some t \<Rightarrow> t
              | None \<Rightarrow> ''# [Binary file not displayed]'' @ newline)
           @ newline
           @ spec_fence (spec_language_tag (name (fst file_path))) @ newline @ newline)"
    by (simp add: code_section_eq)
  then have "create_markdown cwd dir_path exclude_patterns ignore_specs False =
      (fst (create_markdown cwd dir_path exclude_patterns ignore_specs True)
       @ ''## Code'' @ newline
       @ concat (map (\<lambda>(rel_path, file_path).
           ''### '' @ rel_path @ newline
           @ spec_fence (spec_language_tag (name (fst file_path)))
           @ spec_language_tag (name (fst file_path)) @ newline
           @ (case read_text (snd file_path) of
                Some t \<Rightarrow> t
              | None \<Rightarrow> ''# [Binary file not displayed]'' @ newline)
           @ newline
           @ spec_fence (spec_language_tag (name (fst file_path))) @ newline @ newline)
         code_files),
       None)"
    using assms by (simp add: create_markdown_def Let_def generate_tree_rows)
  moreover have "spec_language_tag (name p) = (if suffix p = [] then stem p else tl (suffix p))"
    using language_tag_eq [of p] by (cases "suffix p = []") simp_all
  ultimately show ?thesis by (rule conjI)
qed

theorem code_block_tag_and_fence_witness:
  "is_dir (snd (Path False [''proj''], example_project))
   \<and> get_code_files (Path False [''proj''], example_project) [] [] (Some (Path False [''proj'']))
       = Inr [(''README.md'', (Path False [''proj'', ''README.md''], File ''README.md'' 2 (Some ''hi''))),
              (''Makefile'', (Path False [''proj'', ''Makefile''], File ''Makefile'' 4 (Some ''all:''))),
              (''a.py'', (Path False [''proj'', ''a.py''], File ''a.py'' 3 (Some ''x=1'')))]
   \<and> create_markdown (Path True [''home'']) (Path False [''proj''], example_project) [] [] False =
      (fst (create_markdown (Path True [''home'']) (Path False [''proj''], example_project) [] [] True)
       @ ''## Code'' @ newline
       @ ''### README.md'' @ newline @ ''````md'' @ newline @ ''hi'' @ newline
         @ ''````'' @ newline @ newline
       @ ''### Makefile'' @ newline @ ''```Makefile'' @ newline @ ''all:'' @ newline
         @ ''```'' @ newline @ newline
       @ ''### a.py'' @ newline @ ''```py'' @ newline @ ''x=1'' @ newline
         @ ''```'' @ newline @ newline,
       None)
   \<and> spec_language_tag (name (Path False [''proj'', ''README.md''])) = ''md''
   \<and> suffix (Path False [''proj'', ''README.md'']) = ''.md''"
proof -
  have h1: "is_dir (snd (Path False [''proj''], example_project))"
    by (simp add: example_project_def)
  have h2: "get_code_files (Path False [''proj''], example_project) [] []
              (Some (fst (Path False [''proj''], example_project)))
       = Inr [(''README.md'', (Path False [''proj'', ''README.md''], File ''README.md'' 2 (Some ''hi''))),
              (''Makefile'', (Path False [''proj'', ''Makefile''], File ''Makefile'' 4 (Some ''all:''))),
              (''a.py'', (Path False [''proj'', ''a.py''], File ''a.py'' 3 (Some ''x=1'')))]"
    by code_simp
  have t1: "spec_language_tag ''README.md'' = ''md''"
    and t2: "spec_language_tag ''Makefile'' = ''Makefile''"
    and t3: "spec_language_tag ''a.py'' = ''py''"
    by code_simp+
  have f: "spec_fence ''md'' = ''````''" "spec_fence ''Makefile'' = ''```''"
    "spec_fence ''py'' = ''```''"
    by (simp_all add: spec_fence_def numeral_eq_Suc)
  have n: "name (Path False [''proj'', ''README.md'']) = ''README.md''"
    "name (Path False [''proj'', ''Makefile'']) = ''Makefile''"
    "name (Path False [''proj'', ''a.py'']) = ''a.py''"
    by (simp_all add: name_def)
  have s: "suffix (Path False [''proj'', ''README.md'']) = ''.md''"
    by code_simp
  from code_block_tag_and_fence [OF h1 h2, of "Path True [''home'']"
         "Path False [''proj'', ''README.md'']"]
  have "create_markdown (Path True [''home'']) (Path False [''proj''], example_project) [] [] False =
      (fst (create_markdown (Path True [''home'']) (Path False [''proj''], example_project) [] [] True)
       @ ''## Code'' @ newline
       @ ''### README.md'' @ newline @ ''````md'' @ newline @ ''hi'' @ newline
         @ ''````'' @ newline @ newline
       @ ''### Makefile'' @ newline @ ''```Makefile'' @ newline @ ''all:'' @ newline
         @ ''```'' @ newline @ newline
       @ ''### a.py'' @ newline @ ''```py'' @ newline @ ''x=1'' @ newline
         @ ''```'' @ newline @ newline,
       None)"
    by (simp add: n t1 t2 t3 f)
  with h1 h2 t1 n s show ?thesis by simp
qed

section \<open>The check of the directory argument\<close>




section \<open>Paths outside the project root\<close>

text \<open>
  Claim C10. \<^verbatim>\<open>should_process\<close> returns a boolean for every path under the project root.
  For a path that is not under the project root the guarded computation of the components
  falls back to the components of the path itself: if \<^verbatim>\<open>.git\<close> is among them the result
  is \<open>False\<close>, and if not, the unguarded \<^verbatim>\<open>relative_to\<close> that computes the identifier
  raises \<^verbatim>\<open>ValueError\<close>. Such paths exist, as the witness shows.
\<close>

theorem should_process_total_under_root_only:
  "(is_relative_to path project_root \<longrightarrow>
      (\<exists>b. should_process path exclude_patterns ignore_specs project_root = Inr b))
   \<and> (\<not> is_relative_to path project_root \<and> ''.git'' \<notin> set (parts path) \<longrightarrow>
        should_process path exclude_patterns ignore_specs project_root = Inl ValueError)
   \<and> (\<not> is_relative_to path project_root \<and> ''.git'' \<in> set (parts path) \<longrightarrow>
        should_process path exclude_patterns ignore_specs project_root = Inr False)"
proof (cases "relative_to path project_root")
  case (Inl e)
  then have "e = ValueError"
    by (simp add: relative_to_def split: if_splits)
  with Inl show ?thesis
    by (simp add: should_process_Inl is_relative_to_def)
next
  case (Inr rel)
  then show ?thesis
    by (simp add: should_process_Inr is_relative_to_def)
qed

theorem should_process_total_under_root_only_witness:
  "is_relative_to (Path False [''proj'', ''a.py'']) (Path False [''proj''])
   \<and> (\<exists>b. should_process (Path False [''proj'', ''a.py'']) [] [] (Path False [''proj'']) = Inr b)
   \<and> \<not> is_relative_to (Path False [''other'', ''a.py'']) (Path False [''proj''])
   \<and> ''.git'' \<notin> set (parts (Path False [''other'', ''a.py'']))
   \<and> should_process (Path False [''other'', ''a.py'']) [] [] (Path False [''proj''])
       = Inl ValueError
   \<and> \<not> is_relative_to (Path False [''other'', ''.git'', ''config'']) (Path False [''proj''])
   \<and> ''.git'' \<in> set (parts (Path False [''other'', ''.git'', ''config'']))
   \<and> should_process (Path False [''other'', ''.git'', ''config'']) [] [] (Path False [''proj''])
       = Inr False"
proof -
  have h1: "is_relative_to (Path False [''proj'', ''a.py'']) (Path False [''proj''])"
    by (simp add: is_relative_to_def relative_to_def)
  have h2: "\<not> is_relative_to (Path False [''other'', ''a.py'']) (Path False [''proj''])"
    by (simp add: is_relative_to_def relative_to_def)
  have h3: "''.git'' \<notin> set (parts (Path False [''other'', ''a.py'']))"
    by simp
  have h4: "\<not> is_relative_to (Path False [''other'', ''.git'', ''config'']) (Path False [''proj''])"
    by (simp add: is_relative_to_def relative_to_def)
  have h5: "''.git'' \<in> set (parts (Path False [''other'', ''.git'', ''config'']))"
    by simp
  from h1 h2 h3 h4 h5
    should_process_total_under_root_only
      [of "Path False [''proj'', ''a.py'']" "Path False [''proj'']" "[]" "[]"]
    should_process_total_under_root_only
      [of "Path False [''other'', ''a.py'']" "Path False [''proj'']" "[]" "[]"]
    should_process_total_under_root_only
      [of "Path False [''other'', ''.git'', ''config'']" "Path False [''proj'']" "[]" "[]"]
  show ?thesis by blast
qed

end
